theory Spec2Isabelle
  imports Main "HOL-Library.Sublist"
begin

section \<open>The pod monitor operator\<close>

text \<open>
  The operator watches the pod events of one namespace and posts a line to a chat webhook
  for each event that is not about a system pod. Everything the program does to the
  outside world (log lines, webhook posts, sleeps, opening a watch, starting and stopping
  the health server) is recorded, in order, as a list of actions. What the outside world
  does to the program (the stream yields an event, ends or raises; a sleep is over;
  another thread calls \<open>stop()\<close>; the interrupt signal arrives) is a list of inputs.
\<close>

subsection \<open>Exceptions and outcomes\<close>

text \<open>
  The two handlers of \<open>run\<close> tell \<open>ApiException\<close> from every other subclass of
  \<open>Exception\<close>; each exception carries the text \<open>str(e)\<close> that the log line prints.
  \<open>KeyboardInterrupt\<close> is not a subclass of \<open>Exception\<close> and is an input of its own
  below.
\<close>

datatype exn = ApiException string | OtherException string

fun exn_str :: "exn \<Rightarrow> string" where
  "exn_str (ApiException m) = m"
| "exn_str (OtherException m) = m"

datatype level = INFO | ERROR

text \<open>What \<open>requests.post\<close> does: it returns a response with a status code, or raises.\<close>

datatype http_outcome = Responded int | PostRaised exn

subsection \<open>Pods, as the watch delivers them\<close>

text \<open>
  A pod object has a \<open>metadata\<close> that is an object or \<open>None\<close>; its \<open>name\<close> and
  \<open>namespace\<close> are strings or \<open>None\<close>, its \<open>labels\<close> a dict from strings to strings or
  \<open>None\<close>. The dict is an association list: \<open>any(... for label in labels.keys())\<close> only
  walks the keys.
\<close>

record object_meta =
  meta_name :: "string option"
  meta_namespace :: "string option"
  meta_labels :: "(string \<times> string) list option"

record pod =
  metadata :: "object_meta option"

text \<open>
  The dict that \<open>pod.to_dict()\<close> returns, and that a raw JSON object of the stream is:
  \<open>'metadata'\<close> maps to a dict or \<open>None\<close>. Of the metadata dict the entries are kept whose
  values are a string or \<open>None\<close>.
\<close>

type_synonym meta_dict = "(string \<times> string option) list"
type_synonym pod_dict = "(string \<times> meta_dict option) list"

text \<open>
  \<open>event['object']\<close>: the watch turns the JSON object of an event into a pod object,
  except for an event of type \<open>BOOKMARK\<close>, whose object it leaves as the raw dict.
\<close>

datatype stream_object = PodObject pod | RawDict pod_dict

record event =
  ev_type :: string
  ev_object :: stream_object

text \<open>\<open>x or {}\<close>: \<open>None\<close> and the empty dict are both falsy, so both give \<open>{}\<close>.\<close>

definition or_empty :: "('k \<times> 'v) list option \<Rightarrow> ('k \<times> 'v) list" where
  "or_empty x = (case x of None \<Rightarrow> [] | Some d \<Rightarrow> (if d = [] then [] else d))"

definition keys :: "('k \<times> 'v) list \<Rightarrow> 'k list" where
  "keys d = map fst d"

text \<open>
  \<open>AttributeError\<close>, with its text: an object of type \<open>ty\<close> has no attribute \<open>attr\<close>.
\<close>

definition attribute_error :: "string \<Rightarrow> string \<Rightarrow> exn" where
  "attribute_error ty attr =
     OtherException ([CHR 0x27] @ ty @ ''' object has no attribute '' @ [CHR 0x27] @ attr @
                     [CHR 0x27])"

text \<open>
  \<open>_should_ignore_pod\<close>. Reading \<open>pod.metadata\<close> of a raw dict raises
  \<open>AttributeError\<close>, and so does reading \<open>pod.metadata.namespace\<close> when \<open>metadata\<close> is
  \<open>None\<close>.
\<close>

definition should_ignore_pod :: "stream_object \<Rightarrow> exn + bool" where
  "should_ignore_pod obj =
     (case obj of
        RawDict d \<Rightarrow> Inl (attribute_error ''dict'' ''metadata'')
      | PodObject p \<Rightarrow>
          (case metadata p of
             None \<Rightarrow> Inl (attribute_error ''NoneType'' ''namespace'')
           | Some m \<Rightarrow>
               if meta_namespace m = Some ''kube-system'' then Inr True
               else let labels = or_empty (meta_labels m)
                    in if list_ex (\<lambda>label. prefix ''k8s-app'' label) (keys labels) then Inr True
                       else Inr False))"

text \<open>
  The actions of the program, in the order it performs them: a log record; the health
  server started on a port, and stopped; \<open>w.stream(list_namespaced_pod, namespace=...,
  timeout_seconds=...)\<close> opened; an event received from the stream; one
  \<open>requests.post\<close> to a URL with the message as the payload's \<open>text\<close> (the other two
  payload fields are constants), together with what came back; \<open>time.sleep\<close> entered.
\<close>

datatype action =
    Log level string
  | HealthStart nat
  | HealthStop
  | Watch string nat
  | Recv event
  | Post string string http_outcome
  | Sleep nat

subsection \<open>Printing numbers\<close>

text \<open>\<open>str(n)\<close> of an integer, as an f-string prints it.\<close>

definition digit_char :: "nat \<Rightarrow> char" where
  "digit_char n = ''0123456789'' ! (n mod 10)"

fun str_nat :: "nat \<Rightarrow> string" where
  "str_nat n = (if n < 10 then [digit_char n] else str_nat (n div 10) @ [digit_char n])"

declare str_nat.simps [simp del]

definition str_int :: "int \<Rightarrow> string" where
  "str_int i = (if i < 0 then ''-'' @ str_nat (nat (- i)) else str_nat (nat i))"

subsection \<open>SlackNotifier\<close>

text \<open>
  \<open>send_message\<close>: one post; \<open>True\<close> on status 200, \<open>False\<close> on any other status and
  on any exception of the post, each with its log line.
\<close>

definition send_message :: "string \<Rightarrow> string \<Rightarrow> http_outcome \<Rightarrow> bool \<times> action list" where
  "send_message url message oc =
     (case oc of
        Responded status_code \<Rightarrow>
          if status_code = 200
          then (True, [Post url message oc,
                       Log INFO (''Slack message sent successfully: '' @ message)])
          else (False, [Post url message oc,
                        Log ERROR (''Failed to send Slack message. Status: '' @ str_int status_code)])
      | PostRaised e \<Rightarrow>
          (False, [Post url message oc,
                   Log ERROR (''Error sending Slack message: '' @ exn_str e)]))"

subsection \<open>The event handler\<close>

text \<open>
  \<open>_handle_pod_event\<close> receives \<open>pod.to_dict()\<close>. Of that dict the handler reads
  \<open>'metadata'\<close> and, inside it, \<open>'name'\<close>. \<open>to_dict\<close> belongs to the Kubernetes client
  library: it makes every attribute a key, with \<open>None\<close> for an unset one, and converts a
  nested object the same way.
\<close>

definition to_dict :: "pod \<Rightarrow> pod_dict" where
  "to_dict p =
     [(''metadata'',
       map_option (\<lambda>m. [(''name'', meta_name m), (''namespace'', meta_namespace m)])
         (metadata p))]"

text \<open>\<open>d.get(k, default)\<close>.\<close>

definition dict_get :: "('k \<times> 'v) list \<Rightarrow> 'k \<Rightarrow> 'v \<Rightarrow> 'v" where
  "dict_get d k dflt = (case map_of d k of None \<Rightarrow> dflt | Some v \<Rightarrow> v)"

text \<open>
  \<open>_extract_pod_name\<close>: \<open>pod.get('metadata', {}).get('name', 'unknown')\<close>. A
  \<open>'metadata'\<close> that is present with the value \<open>None\<close> makes the second \<open>get\<close> raise
  \<open>AttributeError\<close>; a \<open>'name'\<close> that is present with the value \<open>None\<close> is returned as
  \<open>None\<close>.
\<close>

definition extract_pod_name :: "pod_dict \<Rightarrow> exn + string option" where
  "extract_pod_name pod_d =
     (case dict_get pod_d ''metadata'' (Some []) of
        None \<Rightarrow> Inl (attribute_error ''NoneType'' ''get'')
      | Some md \<Rightarrow> Inr (dict_get md ''name'' (Some ''unknown'')))"

text \<open>An f-string field \<open>{pod_name}\<close>: the string itself, or \<open>None\<close> printed.\<close>

definition fmt :: "string option \<Rightarrow> string" where
  "fmt v = (case v of None \<Rightarrow> ''None'' | Some s \<Rightarrow> s)"

definition handle_pod_event ::
    "string \<Rightarrow> string \<Rightarrow> pod_dict \<Rightarrow> http_outcome \<Rightarrow> exn + action list" where
  "handle_pod_event url event_type pod_d oc =
     (case extract_pod_name pod_d of
        Inl e \<Rightarrow> Inl e
      | Inr pod_name \<Rightarrow>
          Inr ((if event_type = ''ADDED''
                then snd (send_message url (''Hello world from '' @ fmt pod_name) oc)
                else if event_type = ''MODIFIED''
                then snd (send_message url (''Things have changed, '' @ fmt pod_name) oc)
                else if event_type = ''DELETED''
                then snd (send_message url (''Goodbye world from, '' @ fmt pod_name) oc)
                else [])
               @ [Log INFO (''Processed '' @ event_type @ '' event for pod: '' @ fmt pod_name)]))"

subsection \<open>PodMonitorOperator\<close>

text \<open>
  The operator's fields, the place where \<open>run\<close> currently is, and the actions so far.
  \<open>run\<close> blocks in two places: in the stream, waiting for its next item
  (\<open>Streaming\<close>), and in \<open>time.sleep(5)\<close> (\<open>Backoff\<close>). It ends by returning, or with
  the \<open>KeyboardInterrupt\<close> that no handler of \<open>run\<close> catches.
\<close>

datatype pc = Constructed | Streaming | Backoff | Returned | Interrupted

record state =
  namespace :: string
  webhook_url :: string
  health_port :: nat
  running :: bool
  pc :: pc
  trace :: "action list"

definition emit :: "action list \<Rightarrow> state \<Rightarrow> state" where
  "emit acts s = s\<lparr>trace := trace s @ acts\<rparr>"

text \<open>
  \<open>os.getenv\<close> reads the environment, a map from names to values. The Kubernetes
  configuration loaders either succeed or raise.
\<close>

record kube_env =
  load_incluster_config :: "exn option"
  load_kube_config :: "exn option"

definition init_kubernetes_client :: "kube_env \<Rightarrow> (exn \<times> action list) + action list" where
  "init_kubernetes_client k =
     (case load_incluster_config k of
        None \<Rightarrow> Inr [Log INFO ''Loaded in-cluster Kubernetes config'']
      | Some _ \<Rightarrow>
          (case load_kube_config k of
             None \<Rightarrow> Inr [Log INFO ''Loaded local Kubernetes config'']
           | Some e \<Rightarrow> Inl (e, [Log ERROR (''Failed to load Kubernetes config: '' @ exn_str e)])))"

text \<open>
  \<open>__init__\<close>: the flag starts false, the health server object is made with its default
  port and not started, and \<open>if not webhook_url\<close> rejects a variable that is unset or
  empty before anything else happens. A failure carries the log lines written before it.
\<close>

definition value_error :: exn where
  "value_error = OtherException ''SLACK_WEBHOOK_URL environment variable is required''"

definition PodMonitorOperator_init ::
    "(string \<rightharpoonup> string) \<Rightarrow> kube_env \<Rightarrow> string \<Rightarrow> (exn \<times> action list) + state" where
  "PodMonitorOperator_init env k ns =
     (case env ''SLACK_WEBHOOK_URL'' of
        None \<Rightarrow> Inl (value_error, [])
      | Some url \<Rightarrow>
          if url = [] then Inl (value_error, [])
          else (case init_kubernetes_client k of
                  Inl err \<Rightarrow> Inl err
                | Inr acts \<Rightarrow>
                    Inr \<lparr>namespace = ns, webhook_url = url, health_port = 8080,
                         running = False, pc = Constructed, trace = acts\<rparr>))"

text \<open>\<open>stop\<close>: log, clear the flag, stop the health server.\<close>

definition stop :: "state \<Rightarrow> state" where
  "stop s =
     (emit [Log INFO ''Stopping Pod Monitor Operator...'', HealthStop,
            Log INFO ''Health server stopped''] s)
       \<lparr>running := False\<rparr>"

text \<open>
  The head of \<open>while self.running\<close>: with the flag set, log and open a watch (the body of
  the inner \<open>try\<close> up to the \<open>for\<close>); with the flag clear, leave the loop, run the
  \<open>finally\<close> clause and return.
\<close>

definition loop_top :: "state \<Rightarrow> state" where
  "loop_top s =
     (if running s
      then (emit [Log INFO ''Starting to watch pod events...'', Watch (namespace s) 60] s)
             \<lparr>pc := Streaming\<rparr>
      else (stop s)\<lparr>pc := Returned\<rparr>)"

text \<open>
  The two \<open>except\<close> clauses: they differ in the log line only. With the flag set the
  handler sleeps five seconds; with the flag clear it falls through to the loop head.
\<close>

fun error_line :: "exn \<Rightarrow> string" where
  "error_line (ApiException m) = ''Kubernetes API error: '' @ m"
| "error_line (OtherException m) = ''Unexpected error: '' @ m"

definition on_exception :: "exn \<Rightarrow> state \<Rightarrow> state" where
  "on_exception e s =
     (let s1 = emit [Log ERROR (error_line e)] s
      in if running s1 then (emit [Sleep 5] s1)\<lparr>pc := Backoff\<rparr> else loop_top s1)"

text \<open>
  The body of the \<open>for\<close> loop for one event: the flag check (\<open>break\<close> leads to the loop
  head), the filter (\<open>continue\<close>), the handler on \<open>pod.to_dict()\<close> (a raw dict has no
  such method). An exception of the filter, of \<open>to_dict\<close> or of the handler reaches the
  \<open>except\<close> clauses.
\<close>

definition on_event :: "event \<Rightarrow> http_outcome \<Rightarrow> state \<Rightarrow> state" where
  "on_event ev oc s =
     (let s0 = emit [Recv ev] s in
      if \<not> running s0 then loop_top s0
      else (case should_ignore_pod (ev_object ev) of
              Inl e \<Rightarrow> on_exception e s0
            | Inr True \<Rightarrow> s0
            | Inr False \<Rightarrow>
                (case ev_object ev of
                   RawDict d \<Rightarrow> on_exception (attribute_error ''dict'' ''to_dict'') s0
                 | PodObject p \<Rightarrow>
                     (case handle_pod_event (webhook_url s0) (ev_type ev) (to_dict p) oc of
                        Inl e \<Rightarrow> on_exception e s0
                      | Inr acts \<Rightarrow> emit acts s0))))"

text \<open>
  The inputs. \<open>StreamYields ev oc\<close>: the stream yields \<open>ev\<close>, and \<open>oc\<close> is what the
  webhook does if the event leads to a post. \<open>StreamEnds\<close>: the server-side timeout closes
  the stream. \<open>StreamRaises e\<close>: reading the stream raises. \<open>SleepDone\<close>: the five seconds
  are over. \<open>StopCalled\<close>: another thread calls \<open>stop()\<close> while \<open>run\<close> is blocked.
  \<open>Interrupt\<close>: \<open>KeyboardInterrupt\<close> is raised in \<open>run\<close> while it is blocked; only the
  \<open>finally\<close> clause runs. An input that cannot happen where \<open>run\<close> is gives \<open>None\<close>.
\<close>

datatype input =
    StreamYields event http_outcome
  | StreamEnds
  | StreamRaises exn
  | SleepDone
  | StopCalled
  | Interrupt

definition blocked :: "state \<Rightarrow> bool" where
  "blocked s = (pc s = Streaming \<or> pc s = Backoff)"

fun step :: "state \<Rightarrow> input \<Rightarrow> state option" where
  "step s (StreamYields ev oc) = (if pc s = Streaming then Some (on_event ev oc s) else None)"
| "step s StreamEnds = (if pc s = Streaming then Some (loop_top s) else None)"
| "step s (StreamRaises e) = (if pc s = Streaming then Some (on_exception e s) else None)"
| "step s SleepDone = (if pc s = Backoff then Some (loop_top s) else None)"
| "step s StopCalled = (if blocked s then Some (stop s) else None)"
| "step s Interrupt = (if blocked s then Some ((stop s)\<lparr>pc := Interrupted\<rparr>) else None)"

fun exec :: "state \<Rightarrow> input list \<Rightarrow> state option" where
  "exec s [] = Some s"
| "exec s (i # ins) = (case step s i of None \<Rightarrow> None | Some s' \<Rightarrow> exec s' ins)"

text \<open>
  \<open>run\<close> up to its first blocking point: log, start the health server (binding its
  port is taken to succeed), set the flag, enter the loop.
\<close>

definition run :: "state \<Rightarrow> state" where
  "run s =
     loop_top
       ((emit [Log INFO (''Starting Pod Monitor Operator for namespace: '' @ namespace s),
               HealthStart (health_port s),
               Log INFO (''Health server started on port '' @ str_nat (health_port s))] s)
          \<lparr>running := True\<rparr>)"

text \<open>
  \<open>main\<close>, with the exit status of the process: an exception that leaves \<open>main\<close> ends
  the interpreter with status 1, a return with status 0. On a finite list of inputs the
  process may still be running.
\<close>

datatype exit_status = Exited nat | StillRunning

definition main ::
    "(string \<rightharpoonup> string) \<Rightarrow> kube_env \<Rightarrow> input list \<Rightarrow> (action list \<times> exit_status) option" where
  "main env k ins =
     (let ns = (case env ''NAMESPACE'' of None \<Rightarrow> ''default'' | Some v \<Rightarrow> v) in
      case PodMonitorOperator_init env k ns of
        Inl (e, acts) \<Rightarrow> Some (acts @ [Log ERROR (''Fatal error: '' @ exn_str e)], Exited 1)
      | Inr operator \<Rightarrow>
          (case exec (run operator) ins of
             None \<Rightarrow> None
           | Some s \<Rightarrow>
               if pc s = Returned then Some (trace s, Exited 0)
               else if pc s = Interrupted
               then Some (trace s @ [Log INFO ''Received interrupt signal, shutting down...''],
                          Exited 0)
               else Some (trace s, StillRunning)))"

subsection \<open>HealthHandler\<close>







subsection \<open>Observations on runs\<close>

text \<open>The messages posted, the watches opened and the sleeps entered, in a list of actions.\<close>

fun posts :: "action list \<Rightarrow> string list" where
  "posts [] = []"
| "posts (Post url m oc # acts) = m # posts acts"
| "posts (a # acts) = posts acts"

fun watches :: "action list \<Rightarrow> (string \<times> nat) list" where
  "watches [] = []"
| "watches (Watch ns t # acts) = (ns, t) # watches acts"
| "watches (a # acts) = watches acts"

fun sleeps :: "action list \<Rightarrow> nat list" where
  "sleeps [] = []"
| "sleeps (Sleep n # acts) = n # sleeps acts"
| "sleeps (a # acts) = sleeps acts"

text \<open>The events received and the posts made, with everything else left out.\<close>

fun is_io :: "action \<Rightarrow> bool" where
  "is_io (Recv ev) = True"
| "is_io (Post url m oc) = True"
| "is_io a = False"

definition ended :: "state \<Rightarrow> bool" where
  "ended s = (pc s = Returned \<or> pc s = Interrupted)"

text \<open>A success status in the sense of HTTP: the class 2xx.\<close>

definition spec_success_status :: "int \<Rightarrow> bool" where
  "spec_success_status code = (200 \<le> code \<and> code < 300)"

text \<open>
  The message templates as the specification gives them, by the event type of the
  Kubernetes watch: Created is \<open>ADDED\<close>, Updated is \<open>MODIFIED\<close>, Removed is \<open>DELETED\<close>.
\<close>

definition spec_template :: "string \<Rightarrow> string \<Rightarrow> string option" where
  "spec_template kind name =
     (if kind = ''ADDED'' then Some (''Hello world from '' @ name)
      else if kind = ''MODIFIED'' then Some (''Things have changed, '' @ name)
      else if kind = ''DELETED'' then Some (''Goodbye world from, '' @ name)
      else None)"

text \<open>
  An event passes the filter when \<open>_should_ignore_pod\<close> returns false for its pod; its
  message is the template of its type for the name its pod prints as.
\<close>

definition passes :: "event \<Rightarrow> bool" where
  "passes ev = (should_ignore_pod (ev_object ev) = Inr False)"

definition message_of :: "event \<Rightarrow> string option" where
  "message_of ev =
     (case ev_object ev of
        RawDict d \<Rightarrow> None
      | PodObject p \<Rightarrow>
          (case metadata p of
             None \<Rightarrow> None
           | Some m \<Rightarrow> spec_template (ev_type ev) (fmt (meta_name m))))"

fun events_of :: "input list \<Rightarrow> event list" where
  "events_of [] = []"
| "events_of (StreamYields ev oc # ins) = ev # events_of ins"
| "events_of (i # ins) = events_of ins"

text \<open>What one input should add to the events received and posts made.\<close>

fun io_of :: "string \<Rightarrow> input \<Rightarrow> action list" where
  "io_of url (StreamYields ev oc) =
     Recv ev # (if passes ev
                then (case message_of ev of None \<Rightarrow> [] | Some m \<Rightarrow> [Post url m oc])
                else [])"
| "io_of url i = []"

text \<open>The value of the flag at each point where \<open>run\<close> blocks or ends, along the inputs.\<close>

fun flags :: "state \<Rightarrow> input list \<Rightarrow> bool list" where
  "flags s [] = [running s]"
| "flags s (i # ins) =
     running s # (case step s i of None \<Rightarrow> [] | Some s' \<Rightarrow> flags s' ins)"




text \<open>
  \<open>run\<close> has returned, the flag is clear, and no watch, sleep or post was added to the
  actions of \<open>s\<close>.
\<close>

definition quiet_return :: "state \<Rightarrow> state option \<Rightarrow> bool" where
  "quiet_return s r =
     (case r of
        None \<Rightarrow> False
      | Some s' \<Rightarrow> pc s' = Returned \<and> \<not> running s' \<and> watches (trace s') = watches (trace s) \<and>
          sleeps (trace s') = sleeps (trace s) \<and> posts (trace s') = posts (trace s))"

text \<open>The pairs of successive values in a history of the flag.\<close>

definition transitions :: "bool list \<Rightarrow> (bool \<times> bool) list" where
  "transitions h = zip h (tl h)"

subsection \<open>Example inputs\<close>

definition web1 :: pod where
  "web1 = \<lparr>metadata = Some \<lparr>meta_name = Some ''web-1'', meta_namespace = Some ''default'',
                              meta_labels = Some [(''app'', ''web'')]\<rparr>\<rparr>"

definition coredns :: pod where
  "coredns = \<lparr>metadata = Some \<lparr>meta_name = Some ''coredns'', meta_namespace = Some ''default'',
                                 meta_labels = Some [(''tier'', ''dns''), (''k8s-app-name'', ''dns'')]\<rparr>\<rparr>"

definition hook :: string where
  "hook = ''https://hooks.example/T0''"

definition streaming0 :: state where
  "streaming0 = \<lparr>namespace = ''default'', webhook_url = hook, health_port = 8080,
                 running = True, pc = Streaming, trace = []\<rparr>"

definition env0 :: "string \<rightharpoonup> string" where
  "env0 = [''SLACK_WEBHOOK_URL'' \<mapsto> hook]"

definition kube0 :: kube_env where
  "kube0 = \<lparr>load_incluster_config = None, load_kube_config = None\<rparr>"

definition labelled :: "(string \<times> string) list \<Rightarrow> stream_object" where
  "labelled ls = PodObject \<lparr>metadata = Some \<lparr>meta_name = Some ''pod-0'',
                   meta_namespace = Some ''default'', meta_labels = Some ls\<rparr>\<rparr>"

definition bookmark :: event where
  "bookmark = \<lparr>ev_type = ''BOOKMARK'',
               ev_object = RawDict [(''metadata'', Some [(''resourceVersion'', Some ''40213'')])]\<rparr>"

definition broken :: event where
  "broken = \<lparr>ev_type = ''MODIFIED'', ev_object = PodObject \<lparr>metadata = None\<rparr>\<rparr>"

definition operator0 :: state where
  "operator0 = \<lparr>namespace = ''default'', webhook_url = hook, health_port = 8080,
                running = False, pc = Constructed,
                trace = [Log INFO ''Loaded in-cluster Kubernetes config'']\<rparr>"

definition backoff0 :: state where
  "backoff0 = streaming0\<lparr>pc := Backoff, trace := [Log ERROR ''Kubernetes API error: gone'', Sleep 5]\<rparr>"

definition added :: event where
  "added = \<lparr>ev_type = ''ADDED'', ev_object = PodObject web1\<rparr>"

definition removed :: event where
  "removed = \<lparr>ev_type = ''DELETED'', ev_object = PodObject web1\<rparr>"

definition dns_changed :: event where
  "dns_changed = \<lparr>ev_type = ''MODIFIED'', ev_object = PodObject coredns\<rparr>"

definition script0 :: "input list" where
  "script0 = [StreamYields added (Responded 200), StreamYields dns_changed (Responded 200),
              StreamYields bookmark (Responded 200), SleepDone,
              StreamRaises (ApiException ''gone''), SleepDone,
              StreamYields removed (Responded 500)]"


section \<open>Properties\<close>

subsection \<open>Auxiliary facts\<close>

lemma posts_append: "posts (xs @ ys) = posts xs @ posts ys"
  by (induction xs rule: posts.induct) simp_all

lemma watches_append: "watches (xs @ ys) = watches xs @ watches ys"
  by (induction xs rule: watches.induct) simp_all

lemma sleeps_append: "sleeps (xs @ ys) = sleeps xs @ sleeps ys"
  by (induction xs rule: sleeps.induct) simp_all

lemma posts_send_message: "posts (snd (send_message url m oc)) = [m]"
  by (simp add: send_message_def split: http_outcome.splits)

lemma extract_to_dict:
  "metadata p = Some m \<Longrightarrow> extract_pod_name (to_dict p) = Inr (meta_name m)"
  by (simp add: extract_pod_name_def to_dict_def dict_get_def)

lemma passes_metadata:
  "should_ignore_pod obj = Inr b \<Longrightarrow> \<exists>p m. obj = PodObject p \<and> metadata p = Some m"
  by (auto simp: should_ignore_pod_def split: stream_object.splits option.splits)

text \<open>What a call of the handler from \<open>run\<close> adds: the post of the template, if any.\<close>

lemma handle_posts:
  "metadata p = Some m \<Longrightarrow>
   \<exists>acts. handle_pod_event url t (to_dict p) oc = Inr acts \<and>
     posts acts = (case spec_template t (fmt (meta_name m)) of None \<Rightarrow> [] | Some msg \<Rightarrow> [msg]) \<and>
     filter is_io acts =
       (case spec_template t (fmt (meta_name m)) of None \<Rightarrow> [] | Some msg \<Rightarrow> [Post url msg oc]) \<and>
     watches acts = [] \<and> sleeps acts = []"
  by (auto simp: handle_pod_event_def extract_to_dict spec_template_def send_message_def
        split: http_outcome.splits)

lemma step_not_interrupted:
  "step s i = Some s' \<Longrightarrow> i \<noteq> Interrupt \<Longrightarrow> pc s' \<noteq> Interrupted"
  by (cases i)
     (auto simp: on_event_def on_exception_def loop_top_def stop_def emit_def Let_def blocked_def
        split: if_splits sum.splits bool.splits stream_object.splits)

lemma exec_not_interrupted:
  "exec s ins = Some s' \<Longrightarrow> Interrupt \<notin> set ins \<Longrightarrow> pc s \<noteq> Interrupted \<Longrightarrow> pc s' \<noteq> Interrupted"
proof (induction ins arbitrary: s)
  case Nil
  then show ?case by simp
next
  case (Cons i ins)
  from Cons.prems(1) obtain s1 where s1: "step s i = Some s1" and rest: "exec s1 ins = Some s'"
    by (auto split: option.splits)
  from s1 Cons.prems(2) have "pc s1 \<noteq> Interrupted"
    by (auto dest: step_not_interrupted)
  with Cons.IH [OF rest] Cons.prems(2) show ?case by simp
qed

lemma step_after_stop_ended:
  "\<not> running s \<Longrightarrow> i \<noteq> StopCalled \<Longrightarrow> step s i = Some s' \<Longrightarrow> ended s'"
  by (cases i)
     (auto simp: on_event_def on_exception_def loop_top_def stop_def emit_def Let_def blocked_def
        ended_def split: if_splits)

lemma step_ended: "ended s \<Longrightarrow> step s i = None"
  by (cases i) (auto simp: ended_def blocked_def)

lemma label_prefix_ex:
  "list_ex (\<lambda>label. prefix pre label) (keys d) =
     (\<exists>k v rest. (k, v) \<in> set d \<and> k = pre @ rest)"
  by (induction d) (auto simp: keys_def prefix_def)


lemma not_passes_bookmark: "\<not> passes bookmark"
  by (simp add: bookmark_def passes_def should_ignore_pod_def)

text \<open>Without \<open>stop()\<close> and without the interrupt signal, a step leaves \<open>run\<close> going.\<close>

lemma step_alive:
  "running s \<Longrightarrow> i \<noteq> StopCalled \<Longrightarrow> i \<noteq> Interrupt \<Longrightarrow> step s i = Some s' \<Longrightarrow>
   running s' \<and> blocked s'"
  by (cases i)
     (auto simp: on_event_def on_exception_def loop_top_def emit_def Let_def blocked_def
        split: if_splits sum.splits bool.splits stream_object.splits)

lemma exec_alive:
  "running s \<Longrightarrow> blocked s \<Longrightarrow> StopCalled \<notin> set ins \<Longrightarrow> Interrupt \<notin> set ins \<Longrightarrow>
   exec s ins = Some s' \<Longrightarrow> running s' \<and> blocked s'"
proof (induction ins arbitrary: s)
  case Nil
  then show ?case by simp
next
  case (Cons i ins)
  from Cons.prems(5) obtain s1 where s1: "step s i = Some s1" and rest: "exec s1 ins = Some s'"
    by (auto split: option.splits)
  from Cons.prems(3,4) have i: "i \<noteq> StopCalled" "i \<noteq> Interrupt"
    and ins: "StopCalled \<notin> set ins" "Interrupt \<notin> set ins"
    by auto
  from step_alive [OF Cons.prems(1) i s1] have "running s1" "blocked s1"
    by simp_all
  from Cons.IH [OF this ins rest] show ?case .
qed

text \<open>
  A run of stream errors, each followed by the end of its sleep: every error adds one
  sleep of 5 seconds and one new watch, and \<open>run\<close> is in the stream again.
\<close>

lemma exec_errors:
  "running s \<Longrightarrow> pc s = Streaming \<Longrightarrow>
   \<exists>s'. exec s (concat (map (\<lambda>e. [StreamRaises e, SleepDone]) es)) = Some s' \<and>
        running s' \<and> pc s' = Streaming \<and> namespace s' = namespace s \<and>
        sleeps (trace s') = sleeps (trace s) @ replicate (length es) 5 \<and>
        watches (trace s') = watches (trace s) @ replicate (length es) (namespace s, 60) \<and>
        posts (trace s') = posts (trace s)"
proof (induction es arbitrary: s)
  case Nil
  then show ?case by simp
next
  case (Cons e es)
  let ?s2 = "loop_top (on_exception e s)"
  from Cons.prems have st: "step s (StreamRaises e) = Some (on_exception e s)"
    "step (on_exception e s) SleepDone = Some ?s2"
    by (simp_all add: on_exception_def emit_def Let_def)
  from Cons.prems have s2: "running ?s2" "pc ?s2 = Streaming" "namespace ?s2 = namespace s"
    "sleeps (trace ?s2) = sleeps (trace s) @ [5]"
    "watches (trace ?s2) = watches (trace s) @ [(namespace s, 60)]"
    "posts (trace ?s2) = posts (trace s)"
    by (simp_all add: on_exception_def loop_top_def emit_def Let_def sleeps_append
          watches_append posts_append)
  from Cons.IH [OF s2(1,2)] obtain s' where
    s': "exec ?s2 (concat (map (\<lambda>e. [StreamRaises e, SleepDone]) es)) = Some s'"
      "running s'" "pc s' = Streaming" "namespace s' = namespace ?s2"
      "sleeps (trace s') = sleeps (trace ?s2) @ replicate (length es) 5"
      "watches (trace s') = watches (trace ?s2) @ replicate (length es) (namespace ?s2, 60)"
      "posts (trace s') = posts (trace ?s2)"
    by blast
  have "exec s (concat (map (\<lambda>e. [StreamRaises e, SleepDone]) (e # es))) = Some s'"
    using st s'(1) by simp
  with s' s2 show ?case
    by (simp add: replicate_append_same)
qed

lemma step_running_mono: "step s i = Some s' \<Longrightarrow> running s' \<Longrightarrow> running s"
  by (cases i)
     (auto simp: on_event_def on_exception_def loop_top_def stop_def emit_def Let_def
        split: if_splits sum.splits bool.splits stream_object.splits)

lemma step_ended_stopped: "step s i = Some s' \<Longrightarrow> ended s' \<Longrightarrow> \<not> running s'"
  by (cases i)
     (auto simp: on_event_def on_exception_def loop_top_def stop_def emit_def Let_def ended_def
        blocked_def split: if_splits sum.splits bool.splits stream_object.splits)

lemma flags_stopped: "\<not> running s \<Longrightarrow> flags s ins = replicate (length (flags s ins)) False"
proof (induction ins arbitrary: s)
  case Nil
  then show ?case by simp
next
  case (Cons i ins)
  show ?case
  proof (cases "step s i")
    case None
    with Cons.prems show ?thesis by simp
  next
    case (Some s1)
    with Cons.prems have "\<not> running s1"
      using step_running_mono by blast
    from Cons.IH [OF this] Some Cons.prems show ?thesis by simp
  qed
qed

lemma flags_shape:
  "\<exists>n m. flags s ins = replicate n True @ replicate m False \<and> (running s \<longrightarrow> 0 < n)"
proof (induction ins arbitrary: s)
  case Nil
  show ?case
  proof (cases "running s")
    case True
    then have "flags s [] = replicate 1 True @ replicate 0 False \<and> (running s \<longrightarrow> 0 < (1::nat))"
      by simp
    then show ?thesis by blast
  next
    case False
    then have "flags s [] = replicate 0 True @ replicate 1 False \<and> (running s \<longrightarrow> 0 < (0::nat))"
      by simp
    then show ?thesis by blast
  qed
next
  case (Cons i ins)
  show ?case
  proof (cases "running s")
    case False
    from flags_stopped [OF False, of "i # ins"]
    have "flags s (i # ins) = replicate 0 True @ replicate (length (flags s (i # ins))) False"
      by simp
    with False show ?thesis by blast
  next
    case True
    show ?thesis
    proof (cases "step s i")
      case None
      with True have "flags s (i # ins) = replicate 1 True @ replicate 0 False"
        by simp
      then show ?thesis by blast
    next
      case (Some s1)
      from Cons.IH [of s1] obtain n m where
        "flags s1 ins = replicate n True @ replicate m False"
        by blast
      with True Some have "flags s (i # ins) = replicate (Suc n) True @ replicate m False"
        by simp
      then show ?thesis by blast
    qed
  qed
qed

lemma last_flags: "exec s ins = Some s' \<Longrightarrow> last (flags s ins) = running s'"
proof (induction ins arbitrary: s)
  case Nil
  then show ?case by simp
next
  case (Cons i ins)
  then obtain s1 where s1: "step s i = Some s1" "exec s1 ins = Some s'"
    by (auto split: option.splits)
  have "flags s1 ins \<noteq> []"
    by (cases ins) simp_all
  with Cons.IH [OF s1(2)] s1 show ?case by simp
qed

lemma exec_ended_stopped:
  "exec s ins = Some s' \<Longrightarrow> ended s' \<Longrightarrow> \<not> ended s \<Longrightarrow> \<not> running s'"
proof (induction ins arbitrary: s)
  case Nil
  then show ?case by simp
next
  case (Cons i ins)
  then obtain s1 where s1: "step s i = Some s1" "exec s1 ins = Some s'"
    by (auto split: option.splits)
  show ?case
  proof (cases "ended s1")
    case True
    then have "\<not> running s1"
      using s1(1) step_ended_stopped by blast
    moreover have "ins = []"
      using True s1(2) step_ended [of s1] by (cases ins) simp_all
    ultimately show ?thesis using s1(2) by simp
  next
    case False
    from Cons.IH [OF s1(2) Cons.prems(2) False] show ?thesis .
  qed
qed

lemma zip_replicate_shift: "zip (x # replicate k x) (replicate k y) = replicate k (x, y)"
  by (induction k) simp_all

lemma transitions_shape:
  "transitions (replicate (Suc n) True @ replicate m False) =
     replicate n (True, True) @
     (case m of 0 \<Rightarrow> [] | Suc m' \<Rightarrow> (True, False) # replicate m' (False, False))"
proof (induction n)
  case 0
  show ?case
    by (cases m) (simp_all add: transitions_def zip_replicate_shift)
next
  case (Suc n)
  then show ?case
    by (simp add: transitions_def)
qed

lemma posts_is_io: "posts (filter is_io acts) = posts acts"
  by (induction acts rule: posts.induct) simp_all

lemma step_io:
  assumes "running s" and "i \<noteq> StopCalled" and "step s i = Some s'"
  shows "filter is_io (trace s') = filter is_io (trace s) @ io_of (webhook_url s) i \<and>
         webhook_url s' = webhook_url s \<and> (running s' \<or> ended s')"
proof (cases i)
  case (StreamYields ev oc)
  with assms have pc: "pc s = Streaming" and s': "s' = on_event ev oc s"
    by (auto split: if_splits)
  show ?thesis
  proof (cases "should_ignore_pod (ev_object ev)")
    case (Inl e)
    with assms(1) s' StreamYields show ?thesis
      by (simp add: on_event_def on_exception_def emit_def passes_def Let_def)
  next
    case (Inr b)
    show ?thesis
    proof (cases b)
      case True
      with Inr assms(1) s' StreamYields show ?thesis
        by (simp add: on_event_def emit_def passes_def)
    next
      case False
      from Inr obtain p m where p: "ev_object ev = PodObject p" and m: "metadata p = Some m"
        using passes_metadata by blast
      from handle_posts [OF m, of "webhook_url s" "ev_type ev" oc] obtain acts where
        acts: "handle_pod_event (webhook_url s) (ev_type ev) (to_dict p) oc = Inr acts"
          "filter is_io acts =
             (case spec_template (ev_type ev) (fmt (meta_name m)) of
                None \<Rightarrow> [] | Some msg \<Rightarrow> [Post (webhook_url s) msg oc])"
        by blast
      with Inr False p m assms(1) s' StreamYields show ?thesis
        by (simp add: on_event_def emit_def passes_def message_of_def)
    qed
  qed
next
  case StreamEnds
  with assms show ?thesis
    by (auto simp: loop_top_def emit_def split: if_splits)
next
  case (StreamRaises e)
  with assms show ?thesis
    by (auto simp: on_exception_def emit_def Let_def split: if_splits)
next
  case SleepDone
  with assms show ?thesis
    by (auto simp: loop_top_def emit_def split: if_splits)
next
  case StopCalled
  with assms show ?thesis by simp
next
  case Interrupt
  with assms show ?thesis
    by (auto simp: stop_def emit_def ended_def split: if_splits)
qed

lemma exec_ended: "ended s \<Longrightarrow> exec s ins = Some s' \<Longrightarrow> ins = []"
  by (cases ins) (simp_all add: step_ended)

lemma exec_io:
  "running s \<Longrightarrow> StopCalled \<notin> set ins \<Longrightarrow> exec s ins = Some s' \<Longrightarrow>
   filter is_io (trace s') = filter is_io (trace s) @ concat (map (io_of (webhook_url s)) ins)"
proof (induction ins arbitrary: s)
  case Nil
  then show ?case by simp
next
  case (Cons i ins)
  from Cons.prems(3) obtain s1 where s1: "step s i = Some s1" and rest: "exec s1 ins = Some s'"
    by (auto split: option.splits)
  from Cons.prems(2) have i: "i \<noteq> StopCalled" and ins: "StopCalled \<notin> set ins"
    by auto
  from step_io [OF Cons.prems(1) i s1] have
    io: "filter is_io (trace s1) = filter is_io (trace s) @ io_of (webhook_url s) i"
    and url: "webhook_url s1 = webhook_url s" and alt: "running s1 \<or> ended s1"
    by simp_all
  from alt show ?case
  proof
    assume "running s1"
    from Cons.IH [OF this ins rest] io url show ?thesis by simp
  next
    assume "ended s1"
    with rest have e: "ins = []"
      using exec_ended by blast
    with rest have "s' = s1"
      by simp
    with io e show ?thesis by simp
  qed
qed

lemma posts_io_of:
  "posts (concat (map (io_of url) ins)) = List.map_filter message_of (filter passes (events_of ins))"
  by (induction ins rule: events_of.induct)
     (simp_all add: posts_append split: option.splits)

lemma posts_io_of_le: "length (posts (io_of url i)) \<le> 1"
  by (cases i) (simp_all split: option.splits)

lemma passes_examples:
  "passes added" "passes removed" "\<not> passes dns_changed"
  by (simp_all add: added_def removed_def dns_changed_def passes_def should_ignore_pod_def
        web1_def coredns_def or_empty_def keys_def)

lemma message_of_examples:
  "message_of added = Some ''Hello world from web-1''"
  "message_of removed = Some ''Goodbye world from, web-1''"
  "message_of bookmark = None"
  by (simp_all add: added_def removed_def bookmark_def message_of_def web1_def spec_template_def
        fmt_def)








subsection \<open>EventFilter\<close>

text \<open>
  C3. For every pod reference (a pod object whose metadata is present),
  \<open>_should_ignore_pod\<close> returns normally, and returns true exactly when the namespace is
  \<open>kube-system\<close> or the label dict has an entry whose key is \<open>k8s-app\<close> followed by
  anything. A label dict that is \<open>None\<close> or empty has no entry, so the answer is then
  decided by the namespace alone: it is no error.
\<close>

theorem should_ignore_pod_iff:
  "should_ignore_pod (PodObject \<lparr>metadata = Some m\<rparr>) =
     Inr (meta_namespace m = Some ''kube-system'' \<or>
          (\<exists>labels k v rest. meta_labels m = Some labels \<and> (k, v) \<in> set labels \<and>
                              k = ''k8s-app'' @ rest))
   \<and> (meta_labels m = None \<or> meta_labels m = Some [] \<longrightarrow>
        should_ignore_pod (PodObject \<lparr>metadata = Some m\<rparr>) =
          Inr (meta_namespace m = Some ''kube-system''))"
proof -
  let ?ex = "\<exists>labels k v rest. meta_labels m = Some labels \<and> (k, v) \<in> set labels \<and>
                                  k = ''k8s-app'' @ rest"
  have ex: "list_ex (\<lambda>label. prefix ''k8s-app'' label) (keys (or_empty (meta_labels m))) = ?ex"
  proof (cases "meta_labels m")
    case None
    then show ?thesis
      by (simp add: or_empty_def keys_def)
  next
    case (Some labels)
    have "or_empty (Some labels) = labels"
      by (simp add: or_empty_def)
    with Some show ?thesis
      by (simp add: label_prefix_ex)
  qed
  have a: "should_ignore_pod (PodObject \<lparr>metadata = Some m\<rparr>) =
      Inr (meta_namespace m = Some ''kube-system'' \<or> ?ex)"
    unfolding ex [symmetric] by (simp add: should_ignore_pod_def Let_def)
  have b: "meta_labels m = None \<or> meta_labels m = Some [] \<longrightarrow> \<not> ?ex"
    by auto
  from a b show ?thesis
    by simp
qed

theorem should_ignore_pod_iff_witness:
  "meta_labels \<lparr>meta_name = Some ''web-1'', meta_namespace = Some ''default'',
                meta_labels = None\<rparr> = None
   \<and> should_ignore_pod
       (PodObject \<lparr>metadata = Some \<lparr>meta_name = Some ''web-1'', meta_namespace = Some ''default'',
                                     meta_labels = None\<rparr>\<rparr>) = Inr False
   \<and> should_ignore_pod
       (PodObject \<lparr>metadata = Some \<lparr>meta_name = Some ''kube-proxy'',
                                     meta_namespace = Some ''kube-system'',
                                     meta_labels = Some []\<rparr>\<rparr>) = Inr True
   \<and> should_ignore_pod (labelled []) = Inr False
   \<and> should_ignore_pod (labelled [(''k8s-app'', ''kube-dns'')]) = Inr True
   \<and> should_ignore_pod (labelled [(''app'', ''web'')]) = Inr False
   \<and> should_ignore_pod (labelled [(''my-k8s-app'', ''web'')]) = Inr False
   \<and> should_ignore_pod (labelled [(''app'', ''web''), (''tier'', ''db''), (''k8s-app.x'', '''')])
       = Inr True
   \<and> should_ignore_pod (PodObject coredns) = Inr True"
proof -
  have 1: "should_ignore_pod
       (PodObject \<lparr>metadata = Some \<lparr>meta_name = Some ''web-1'', meta_namespace = Some ''default'',
                                     meta_labels = None\<rparr>\<rparr>) = Inr False"
    using should_ignore_pod_iff
      [of "\<lparr>meta_name = Some ''web-1'', meta_namespace = Some ''default'', meta_labels = None\<rparr>"]
    by simp
  have 2: "should_ignore_pod
       (PodObject \<lparr>metadata = Some \<lparr>meta_name = Some ''kube-proxy'',
                                     meta_namespace = Some ''kube-system'',
                                     meta_labels = Some []\<rparr>\<rparr>) = Inr True"
    using should_ignore_pod_iff
      [of "\<lparr>meta_name = Some ''kube-proxy'', meta_namespace = Some ''kube-system'',
            meta_labels = Some []\<rparr>"]
    by simp
  have l: "should_ignore_pod (labelled ls) =
      Inr (\<exists>k v rest. (k, v) \<in> set ls \<and> k = ''k8s-app'' @ rest)" for ls
    using should_ignore_pod_iff
      [of "\<lparr>meta_name = Some ''pod-0'', meta_namespace = Some ''default'', meta_labels = Some ls\<rparr>"]
    by (simp add: labelled_def)
  have 3: "should_ignore_pod (labelled []) = Inr False"
    by (simp add: l)
  have 4: "should_ignore_pod (labelled [(''k8s-app'', ''kube-dns'')]) = Inr True"
    by (simp add: l)
  have 5: "should_ignore_pod (labelled [(''app'', ''web'')]) = Inr False"
    by (simp add: l)
  have 6: "should_ignore_pod (labelled [(''my-k8s-app'', ''web'')]) = Inr False"
    by (simp add: l)
  have "(''k8s-app.x'', '''') \<in> set [(''app'', ''web''), (''tier'', ''db''), (''k8s-app.x'', '''')] \<and>
      ''k8s-app.x'' = ''k8s-app'' @ ''.x''"
    by simp
  then have "\<exists>k v rest. (k, v) \<in> set [(''app'', ''web''), (''tier'', ''db''), (''k8s-app.x'', '''')] \<and>
      k = ''k8s-app'' @ rest"
    by blast
  then have 7: "should_ignore_pod
      (labelled [(''app'', ''web''), (''tier'', ''db''), (''k8s-app.x'', '''')]) = Inr True"
    by (simp only: l)
  have "(''k8s-app-name'', ''dns'') \<in> set [(''tier'', ''dns''), (''k8s-app-name'', ''dns'')] \<and>
      ''k8s-app-name'' = ''k8s-app'' @ ''-name''"
    by simp
  then have "\<exists>labels k v rest.
      meta_labels \<lparr>meta_name = Some ''coredns'', meta_namespace = Some ''default'',
                   meta_labels = Some [(''tier'', ''dns''), (''k8s-app-name'', ''dns'')]\<rparr>
        = Some labels \<and> (k, v) \<in> set labels \<and> k = ''k8s-app'' @ rest"
    by auto
  then have 8: "should_ignore_pod (PodObject coredns) = Inr True"
    using should_ignore_pod_iff
      [of "\<lparr>meta_name = Some ''coredns'', meta_namespace = Some ''default'',
            meta_labels = Some [(''tier'', ''dns''), (''k8s-app-name'', ''dns'')]\<rparr>"]
    by (simp only: coredns_def HOL.simp_thms)
  from 1 2 3 4 5 6 7 8 show ?thesis by simp
qed

subsection \<open>Message templates\<close>

text \<open>
  C5. When the pod dict carries the name \<open>pod_name\<close>, the handler posts exactly one
  message for each of the three event types, and it is the fixed template of that type
  with the name put in: \<open>Hello world from\<close>, \<open>Things have changed,\<close> and
  \<open>Goodbye world from,\<close> followed by a space and the name.
\<close>

theorem message_templates:
  assumes "map_of pod_d ''metadata'' = Some (Some md)"
    and "map_of md ''name'' = Some (Some pod_name)"
  shows "(\<exists>acts. handle_pod_event url ''ADDED'' pod_d oc = Inr acts \<and>
                 posts acts = [''Hello world from '' @ pod_name]) \<and>
         (\<exists>acts. handle_pod_event url ''MODIFIED'' pod_d oc = Inr acts \<and>
                 posts acts = [''Things have changed, '' @ pod_name]) \<and>
         (\<exists>acts. handle_pod_event url ''DELETED'' pod_d oc = Inr acts \<and>
                 posts acts = [''Goodbye world from, '' @ pod_name])"
  using assms
  by (simp add: handle_pod_event_def extract_pod_name_def dict_get_def fmt_def posts_append
        posts_send_message)

theorem message_templates_witness:
  "map_of (to_dict web1) ''metadata''
     = Some (Some [(''name'', Some ''web-1''), (''namespace'', Some ''default'')]) \<and>
   map_of [(''name'', Some ''web-1''), (''namespace'', Some ''default'')] ''name''
     = Some (Some ''web-1'') \<and>
   (\<exists>acts. handle_pod_event hook ''ADDED'' (to_dict web1) (Responded 200) = Inr acts \<and>
           posts acts = [''Hello world from web-1'']) \<and>
   (\<exists>acts. handle_pod_event hook ''MODIFIED'' (to_dict web1) (Responded 200) = Inr acts \<and>
           posts acts = [''Things have changed, web-1'']) \<and>
   (\<exists>acts. handle_pod_event hook ''DELETED'' (to_dict web1) (Responded 200) = Inr acts \<and>
           posts acts = [''Goodbye world from, web-1''])"
proof -
  have md: "map_of (to_dict web1) ''metadata''
      = Some (Some [(''name'', Some ''web-1''), (''namespace'', Some ''default'')])"
    by (simp add: to_dict_def web1_def)
  have nm: "map_of [(''name'', Some ''web-1''), (''namespace'', Some ''default'')] ''name''
      = Some (Some ''web-1'')"
    by simp
  from message_templates [OF md nm, of hook "Responded 200"] md nm show ?thesis
    by simp
qed

subsection \<open>Notifier\<close>

text \<open>
  C4. \<open>send_message\<close> returns a truth value for every outcome of the post, so no error
  leaves it: true exactly when the webhook answered with status 200, false for any other
  status (the other statuses of the class 2xx among them) and for any exception of the
  post. It posts once. In the loop, an event that passes the filter is handled in one step
  whatever the outcome of its post was: \<open>run\<close> is in the stream again afterwards with
  the flag still set, and the event has added its one message, or none, to the posts.
\<close>

theorem send_message_result:
  "fst (send_message url message oc) = (oc = Responded 200) \<and>
   (code \<noteq> 200 \<longrightarrow> fst (send_message url message (Responded code)) = False) \<and>
   fst (send_message url message (PostRaised e)) = False \<and>
   posts (snd (send_message url message oc)) = [message] \<and>
   (pc s = Streaming \<and> running s \<and> passes ev \<longrightarrow>
      (\<exists>s'. step s (StreamYields ev oc) = Some s' \<and> pc s' = Streaming \<and> running s' \<and>
            posts (trace s') =
              posts (trace s) @ (case message_of ev of None \<Rightarrow> [] | Some m \<Rightarrow> [m])))"
proof -
  have a: "fst (send_message url message oc) = (oc = Responded 200)"
    by (simp add: send_message_def split: http_outcome.splits)
  have b: "code \<noteq> 200 \<longrightarrow> fst (send_message url message (Responded code)) = False"
    by (simp add: send_message_def)
  have c: "fst (send_message url message (PostRaised e)) = False"
    by (simp add: send_message_def)
  have d: "pc s = Streaming \<and> running s \<and> passes ev \<longrightarrow>
      (\<exists>s'. step s (StreamYields ev oc) = Some s' \<and> pc s' = Streaming \<and> running s' \<and>
            posts (trace s') =
              posts (trace s) @ (case message_of ev of None \<Rightarrow> [] | Some m \<Rightarrow> [m]))"
  proof (intro impI, elim conjE)
    assume s: "pc s = Streaming" "running s" and p: "passes ev"
    from p obtain q m where q: "ev_object ev = PodObject q" and m: "metadata q = Some m"
      using passes_metadata unfolding passes_def by blast
    from handle_posts [OF m, of "webhook_url s" "ev_type ev" oc] obtain acts where
      acts: "handle_pod_event (webhook_url s) (ev_type ev) (to_dict q) oc = Inr acts"
        "posts acts =
           (case spec_template (ev_type ev) (fmt (meta_name m)) of None \<Rightarrow> [] | Some msg \<Rightarrow> [msg])"
      by blast
    show "\<exists>s'. step s (StreamYields ev oc) = Some s' \<and> pc s' = Streaming \<and> running s' \<and>
            posts (trace s') =
              posts (trace s) @ (case message_of ev of None \<Rightarrow> [] | Some m \<Rightarrow> [m])"
      using s p q m acts
      by (simp add: on_event_def emit_def passes_def message_of_def posts_append)
  qed
  from a b c d posts_send_message show ?thesis by blast
qed

theorem send_message_result_witness:
  "(500::int) \<noteq> 200 \<and>
   fst (send_message hook ''Hello world from web-1'' (Responded 500)) = False \<and>
   fst (send_message hook ''Hello world from web-1'' (Responded 200)) = True \<and>
   pc streaming0 = Streaming \<and> running streaming0 \<and> passes added \<and>
   (\<exists>s'. step streaming0 (StreamYields added (Responded 500)) = Some s' \<and>
         pc s' = Streaming \<and> running s' \<and> posts (trace s') = [''Hello world from web-1''])"
proof -
  have h: "pc streaming0 = Streaming \<and> running streaming0 \<and> passes added"
    using passes_examples(1) by (simp add: streaming0_def)
  have t: "posts (trace streaming0) = []"
    by (simp add: streaming0_def)
  from send_message_result [of hook "''Hello world from web-1''" "Responded 500" 500
      "OtherException ''timed out''" streaming0 added] h t message_of_examples(1)
  have 1: "fst (send_message hook ''Hello world from web-1'' (Responded 500)) = False \<and>
      (\<exists>s'. step streaming0 (StreamYields added (Responded 500)) = Some s' \<and>
         pc s' = Streaming \<and> running s' \<and> posts (trace s') = [''Hello world from web-1''])"
    by simp
  from send_message_result [of hook "''Hello world from web-1''" "Responded 200" 500
      "OtherException ''timed out''" streaming0 added]
  have 2: "fst (send_message hook ''Hello world from web-1'' (Responded 200)) = True"
    by simp
  from h 1 2 show ?thesis by simp
qed

text \<open>
  Status 204 is a success status of HTTP, and \<open>send_message\<close> reports the message as not
  delivered.
\<close>

theorem send_message_204_counterexample:
  "spec_success_status 204 \<and>
   fst (send_message hook ''Hello world from web-1'' (Responded 204)) = False"
  by (simp add: spec_success_status_def send_message_def)

subsection \<open>Unrecognised event types\<close>




subsection \<open>Errors of the stream\<close>

text \<open>
  C1. While \<open>run\<close> reads the stream, an exception of either kind is handled in the same
  way. With the flag set: one error line, a sleep of 5 seconds, and, when the sleep is
  over, a new watch on the same namespace. With the flag clear: the error line, then the
  lines of \<open>stop\<close>, no sleep, no new watch, and \<open>run\<close> returns. An exception raised by
  the filter on a malformed pod takes the same path. Along inputs without the interrupt
  signal \<open>run\<close> never ends with an exception, and without a call of \<open>stop()\<close> either it
  does not end at all. Any number of errors in a row, each followed by the end of its
  sleep, gives as many sleeps of 5 seconds and as many new watches, no post, and \<open>run\<close>
  reading the stream again.
\<close>

theorem stream_error_backoff:
  assumes "pc s = Streaming"
  shows "(running s \<longrightarrow>
            (\<exists>s1 s2. step s (StreamRaises e) = Some s1 \<and> pc s1 = Backoff \<and> running s1 \<and>
               trace s1 = trace s @ [Log ERROR (error_line e), Sleep 5] \<and>
               step s1 SleepDone = Some s2 \<and> pc s2 = Streaming \<and> running s2 \<and>
               trace s2 = trace s1 @ [Log INFO ''Starting to watch pod events...'',
                                       Watch (namespace s) 60])) \<and>
         (\<not> running s \<longrightarrow>
            (\<exists>s1. step s (StreamRaises e) = Some s1 \<and> pc s1 = Returned \<and>
               trace s1 = trace s @ [Log ERROR (error_line e),
                                     Log INFO ''Stopping Pod Monitor Operator...'', HealthStop,
                                     Log INFO ''Health server stopped''] \<and>
               sleeps (trace s1) = sleeps (trace s) \<and> watches (trace s1) = watches (trace s))) \<and>
         (running s \<and> should_ignore_pod (ev_object ev) = Inl e \<longrightarrow>
            (\<exists>s1. step s (StreamYields ev oc) = Some s1 \<and> pc s1 = Backoff \<and> running s1 \<and>
               trace s1 = trace s @ [Recv ev, Log ERROR (error_line e), Sleep 5])) \<and>
         (\<forall>s'. exec s ins = Some s' \<and> Interrupt \<notin> set ins \<longrightarrow> pc s' \<noteq> Interrupted) \<and>
         (\<forall>s'. running s \<and> exec s ins = Some s' \<and> Interrupt \<notin> set ins \<and> StopCalled \<notin> set ins
               \<longrightarrow> running s' \<and> blocked s') \<and>
         (running s \<longrightarrow>
            (\<exists>s'. exec s (concat (map (\<lambda>e. [StreamRaises e, SleepDone]) es)) = Some s' \<and>
               running s' \<and> pc s' = Streaming \<and>
               sleeps (trace s') = sleeps (trace s) @ replicate (length es) 5 \<and>
               watches (trace s') = watches (trace s) @ replicate (length es) (namespace s, 60) \<and>
               posts (trace s') = posts (trace s)))"
proof -
  have a: "running s \<longrightarrow>
            (\<exists>s1 s2. step s (StreamRaises e) = Some s1 \<and> pc s1 = Backoff \<and> running s1 \<and>
               trace s1 = trace s @ [Log ERROR (error_line e), Sleep 5] \<and>
               step s1 SleepDone = Some s2 \<and> pc s2 = Streaming \<and> running s2 \<and>
               trace s2 = trace s1 @ [Log INFO ''Starting to watch pod events...'',
                                       Watch (namespace s) 60])"
    using assms by (simp add: on_exception_def loop_top_def emit_def Let_def)
  have b: "\<not> running s \<longrightarrow>
            (\<exists>s1. step s (StreamRaises e) = Some s1 \<and> pc s1 = Returned \<and>
               trace s1 = trace s @ [Log ERROR (error_line e),
                                     Log INFO ''Stopping Pod Monitor Operator...'', HealthStop,
                                     Log INFO ''Health server stopped''] \<and>
               sleeps (trace s1) = sleeps (trace s) \<and> watches (trace s1) = watches (trace s))"
    using assms
    by (simp add: on_exception_def loop_top_def stop_def emit_def Let_def sleeps_append
          watches_append)
  have c: "running s \<and> should_ignore_pod (ev_object ev) = Inl e \<longrightarrow>
            (\<exists>s1. step s (StreamYields ev oc) = Some s1 \<and> pc s1 = Backoff \<and> running s1 \<and>
               trace s1 = trace s @ [Recv ev, Log ERROR (error_line e), Sleep 5])"
    using assms by (simp add: on_event_def on_exception_def emit_def Let_def)
  have d: "\<forall>s'. exec s ins = Some s' \<and> Interrupt \<notin> set ins \<longrightarrow> pc s' \<noteq> Interrupted"
    using assms exec_not_interrupted [of s ins] by auto
  have bl: "blocked s"
    using assms by (simp add: blocked_def)
  have e: "\<forall>s'. running s \<and> exec s ins = Some s' \<and> Interrupt \<notin> set ins \<and> StopCalled \<notin> set ins
               \<longrightarrow> running s' \<and> blocked s'"
    using exec_alive [of s ins, OF _ bl] by blast
  have f: "running s \<longrightarrow>
            (\<exists>s'. exec s (concat (map (\<lambda>e. [StreamRaises e, SleepDone]) es)) = Some s' \<and>
               running s' \<and> pc s' = Streaming \<and>
               sleeps (trace s') = sleeps (trace s) @ replicate (length es) 5 \<and>
               watches (trace s') = watches (trace s) @ replicate (length es) (namespace s, 60) \<and>
               posts (trace s') = posts (trace s))"
    using exec_errors [of s es, OF _ assms] by blast
  from a b c d e f show ?thesis by blast
qed

theorem stream_error_backoff_witness:
  "pc streaming0 = Streaming \<and> running streaming0 \<and>
   (\<exists>s1 s2. step streaming0 (StreamRaises (ApiException ''gone'')) = Some s1 \<and>
      trace s1 = [Log ERROR ''Kubernetes API error: gone'', Sleep 5] \<and>
      step s1 SleepDone = Some s2 \<and> pc s2 = Streaming \<and>
      trace s2 = [Log ERROR ''Kubernetes API error: gone'', Sleep 5,
                  Log INFO ''Starting to watch pod events...'', Watch ''default'' 60]) \<and>
   \<not> running (streaming0\<lparr>running := False\<rparr>) \<and>
   (\<exists>s1. step (streaming0\<lparr>running := False\<rparr>) (StreamRaises (OtherException ''reset'')) = Some s1 \<and>
      pc s1 = Returned \<and>
      trace s1 = [Log ERROR ''Unexpected error: reset'',
                  Log INFO ''Stopping Pod Monitor Operator...'', HealthStop,
                  Log INFO ''Health server stopped'']) \<and>
   should_ignore_pod (ev_object broken) = Inl (attribute_error ''NoneType'' ''namespace'') \<and>
   (\<exists>s1. step streaming0 (StreamYields broken (Responded 200)) = Some s1 \<and> pc s1 = Backoff \<and>
      sleeps (trace s1) = [5]) \<and>
   exec streaming0 [StreamRaises (ApiException ''gone''), SleepDone, StreamEnds] \<noteq> None \<and>
   Interrupt \<notin> set [StreamRaises (ApiException ''gone''), SleepDone, StreamEnds] \<and>
   StopCalled \<notin> set [StreamRaises (ApiException ''gone''), SleepDone, StreamEnds] \<and>
   pc (the (exec streaming0 [StreamRaises (ApiException ''gone''), SleepDone, StreamEnds]))
     \<noteq> Interrupted \<and>
   running (the (exec streaming0 [StreamRaises (ApiException ''gone''), SleepDone, StreamEnds])) \<and>
   (\<exists>s'. exec streaming0
           [StreamRaises (ApiException ''gone''), SleepDone,
            StreamRaises (OtherException ''reset''), SleepDone,
            StreamRaises (ApiException ''gone''), SleepDone] = Some s' \<and>
         pc s' = Streaming \<and> sleeps (trace s') = [5, 5, 5] \<and>
         watches (trace s') = [(''default'', 60), (''default'', 60), (''default'', 60)] \<and>
         posts (trace s') = [])"
proof -
  let ?ins = "[StreamRaises (ApiException ''gone''), SleepDone, StreamEnds]"
  let ?es = "[ApiException ''gone'', OtherException ''reset'', ApiException ''gone'']"
  have p: "pc streaming0 = Streaming" "pc (streaming0\<lparr>running := False\<rparr>) = Streaming"
    by (simp_all add: streaming0_def)
  have r: "running streaming0" "trace streaming0 = []" "namespace streaming0 = ''default''"
    by (simp_all add: streaming0_def)
  have b: "should_ignore_pod (ev_object broken) = Inl (attribute_error ''NoneType'' ''namespace'')"
    by (simp add: broken_def should_ignore_pod_def)
  have e: "exec streaming0 ?ins \<noteq> None"
    by (simp add: streaming0_def on_exception_def loop_top_def emit_def Let_def)
  have i: "Interrupt \<notin> set ?ins" "StopCalled \<notin> set ?ins"
    by simp_all
  note T1 = stream_error_backoff [OF p(1), of "ApiException ''gone''" broken "Responded 200" ?ins ?es]
  note T2 = stream_error_backoff [OF p(2), of "OtherException ''reset''" broken "Responded 200"
              ?ins ?es]
  note T3 = stream_error_backoff [OF p(1), of "attribute_error ''NoneType'' ''namespace''" broken
              "Responded 200" ?ins ?es]
  from T1 [THEN conjunct1, rule_format, OF r(1)] obtain s1 s2 where
    "step streaming0 (StreamRaises (ApiException ''gone'')) = Some s1"
    "trace s1 = trace streaming0 @ [Log ERROR (error_line (ApiException ''gone'')), Sleep 5]"
    "step s1 SleepDone = Some s2" "pc s2 = Streaming"
    "trace s2 = trace s1 @ [Log INFO ''Starting to watch pod events...'',
                            Watch (namespace streaming0) 60]"
    by blast
  then have "step streaming0 (StreamRaises (ApiException ''gone'')) = Some s1 \<and>
      trace s1 = [Log ERROR ''Kubernetes API error: gone'', Sleep 5] \<and>
      step s1 SleepDone = Some s2 \<and> pc s2 = Streaming \<and>
      trace s2 = [Log ERROR ''Kubernetes API error: gone'', Sleep 5,
                  Log INFO ''Starting to watch pod events...'', Watch ''default'' 60]"
    by (simp add: r del: step.simps)
  then have 1: "(\<exists>s1 s2. step streaming0 (StreamRaises (ApiException ''gone'')) = Some s1 \<and>
      trace s1 = [Log ERROR ''Kubernetes API error: gone'', Sleep 5] \<and>
      step s1 SleepDone = Some s2 \<and> pc s2 = Streaming \<and>
      trace s2 = [Log ERROR ''Kubernetes API error: gone'', Sleep 5,
                  Log INFO ''Starting to watch pod events...'', Watch ''default'' 60])"
    by blast
  from e obtain s' where s': "exec streaming0 ?ins = Some s'"
    by blast
  from T1 [THEN conjunct2, THEN conjunct2, THEN conjunct2, THEN conjunct1] s' i
  have 4: "pc (the (exec streaming0 ?ins)) \<noteq> Interrupted"
    by simp
  from T1 [THEN conjunct2, THEN conjunct2, THEN conjunct2, THEN conjunct2, THEN conjunct1] s' i r
  have 5: "running (the (exec streaming0 ?ins))"
    by simp
  have cc: "concat (map (\<lambda>e. [StreamRaises e, SleepDone]) ?es) =
      [StreamRaises (ApiException ''gone''), SleepDone,
       StreamRaises (OtherException ''reset''), SleepDone,
       StreamRaises (ApiException ''gone''), SleepDone]"
    by simp
  from T1 [THEN conjunct2, THEN conjunct2, THEN conjunct2, THEN conjunct2, THEN conjunct2] r(1)
  obtain s6 where s6: "exec streaming0 (concat (map (\<lambda>e. [StreamRaises e, SleepDone]) ?es)) = Some s6"
    "pc s6 = Streaming"
    "sleeps (trace s6) = sleeps (trace streaming0) @ replicate (length ?es) 5"
    "watches (trace s6) = watches (trace streaming0) @ replicate (length ?es) (namespace streaming0, 60)"
    "posts (trace s6) = posts (trace streaming0)"
    by blast
  from s6(2-5) r(2,3) have "pc s6 = Streaming \<and> sleeps (trace s6) = [5, 5, 5] \<and>
      watches (trace s6) = [(''default'', 60), (''default'', 60), (''default'', 60)] \<and>
      posts (trace s6) = []"
    by (simp add: numeral_3_eq_3)
  with s6(1) [unfolded cc]
  have 6: "\<exists>s'. exec streaming0
           [StreamRaises (ApiException ''gone''), SleepDone,
            StreamRaises (OtherException ''reset''), SleepDone,
            StreamRaises (ApiException ''gone''), SleepDone] = Some s' \<and>
         pc s' = Streaming \<and> sleeps (trace s') = [5, 5, 5] \<and>
         watches (trace s') = [(''default'', 60), (''default'', 60), (''default'', 60)] \<and>
         posts (trace s') = []"
    by blast
  have nr: "\<not> running (streaming0\<lparr>running := False\<rparr>)"
    by simp
  from T2 [THEN conjunct2, THEN conjunct1, rule_format, OF nr] obtain s3 where
    "step (streaming0\<lparr>running := False\<rparr>) (StreamRaises (OtherException ''reset'')) = Some s3"
    "pc s3 = Returned"
    "trace s3 = trace (streaming0\<lparr>running := False\<rparr>) @
       [Log ERROR (error_line (OtherException ''reset'')),
        Log INFO ''Stopping Pod Monitor Operator...'', HealthStop,
        Log INFO ''Health server stopped'']"
    by blast
  then have "step (streaming0\<lparr>running := False\<rparr>) (StreamRaises (OtherException ''reset'')) = Some s3 \<and>
      pc s3 = Returned \<and>
      trace s3 = [Log ERROR ''Unexpected error: reset'',
                  Log INFO ''Stopping Pod Monitor Operator...'', HealthStop,
                  Log INFO ''Health server stopped'']"
    by (simp add: r del: step.simps)
  then have 2: "\<exists>s1. step (streaming0\<lparr>running := False\<rparr>) (StreamRaises (OtherException ''reset'')) = Some s1 \<and>
      pc s1 = Returned \<and>
      trace s1 = [Log ERROR ''Unexpected error: reset'',
                  Log INFO ''Stopping Pod Monitor Operator...'', HealthStop,
                  Log INFO ''Health server stopped'']"
    by blast
  from T3 [THEN conjunct2, THEN conjunct2, THEN conjunct1, rule_format, OF conjI, OF r(1) b]
  obtain s4 where
    "step streaming0 (StreamYields broken (Responded 200)) = Some s4" "pc s4 = Backoff"
    "trace s4 = trace streaming0 @
       [Recv broken, Log ERROR (error_line (attribute_error ''NoneType'' ''namespace'')), Sleep 5]"
    by blast
  then have "step streaming0 (StreamYields broken (Responded 200)) = Some s4 \<and> pc s4 = Backoff \<and>
      sleeps (trace s4) = [5]"
    by (simp add: r del: step.simps)
  then have 3: "\<exists>s1. step streaming0 (StreamYields broken (Responded 200)) = Some s1 \<and> pc s1 = Backoff \<and>
      sleeps (trace s1) = [5]"
    by blast
  from p(1) r(1) 1 nr 2 b 3 e i 4 5 6 show ?thesis
    by (intro conjI) assumption+
qed

subsection \<open>Stopping\<close>

text \<open>
  C6. \<open>stop()\<close>, called while \<open>run\<close> is blocked, clears the flag and leaves \<open>run\<close> where
  it is. Whatever ends the current wait then ends \<open>run\<close>: an event (the check at the head
  of the loop body), the end of the stream or the end of the sleep (the check at the loop
  head), an exception of the stream (the handler skips the sleep). In each case \<open>run\<close>
  returns, having opened no further watch, slept no further time and posted nothing.
  After any input but a second \<open>stop()\<close>, \<open>run\<close> is over and takes no more input.
\<close>

theorem stop_ends_run:
  assumes "blocked s"
  shows "\<exists>s1. step s StopCalled = Some s1 \<and> \<not> running s1 \<and> pc s1 = pc s \<and>
           (pc s = Streaming \<longrightarrow>
              quiet_return s (step s1 (StreamYields ev oc)) \<and>
              quiet_return s (step s1 StreamEnds) \<and>
              quiet_return s (step s1 (StreamRaises e))) \<and>
           (pc s = Backoff \<longrightarrow> quiet_return s (step s1 SleepDone)) \<and>
           (\<forall>i s2. i \<noteq> StopCalled \<and> step s1 i = Some s2 \<longrightarrow>
              ended s2 \<and> (\<forall>j. step s2 j = None))"
proof -
  let ?s1 = "stop s"
  have 1: "step s StopCalled = Some ?s1 \<and> \<not> running ?s1 \<and> pc ?s1 = pc s"
    using assms by (simp add: stop_def emit_def)
  have 2: "pc s = Streaming \<longrightarrow>
              quiet_return s (step ?s1 (StreamYields ev oc)) \<and>
              quiet_return s (step ?s1 StreamEnds) \<and>
              quiet_return s (step ?s1 (StreamRaises e))"
    by (simp add: quiet_return_def on_event_def on_exception_def loop_top_def stop_def emit_def
          Let_def watches_append sleeps_append posts_append)
  have 3: "pc s = Backoff \<longrightarrow> quiet_return s (step ?s1 SleepDone)"
    by (simp add: quiet_return_def loop_top_def stop_def emit_def
          Let_def watches_append sleeps_append posts_append)
  have 4: "\<forall>i s2. i \<noteq> StopCalled \<and> step ?s1 i = Some s2 \<longrightarrow> ended s2 \<and> (\<forall>j. step s2 j = None)"
    using 1 step_after_stop_ended [of ?s1] step_ended by blast
  from 1 2 3 4 show ?thesis by blast
qed

theorem stop_ends_run_witness:
  "blocked streaming0 \<and> blocked backoff0 \<and>
   pc streaming0 = Streaming \<and> pc backoff0 = Backoff \<and>
   exec streaming0 [StopCalled, StreamYields bookmark (Responded 200)] =
     Some (streaming0\<lparr>running := False, pc := Returned,
            trace := [Log INFO ''Stopping Pod Monitor Operator...'', HealthStop,
                      Log INFO ''Health server stopped'', Recv bookmark,
                      Log INFO ''Stopping Pod Monitor Operator...'', HealthStop,
                      Log INFO ''Health server stopped'']\<rparr>) \<and>
   (\<exists>s1. step backoff0 StopCalled = Some s1 \<and> quiet_return backoff0 (step s1 SleepDone)) \<and>
   (\<exists>s1. step streaming0 StopCalled = Some s1 \<and>
         quiet_return streaming0 (step s1 (StreamYields bookmark (Responded 200))) \<and>
         quiet_return streaming0 (step s1 StreamEnds) \<and>
         quiet_return streaming0 (step s1 (StreamRaises (ApiException ''gone''))))"
proof -
  have b: "blocked streaming0" "blocked backoff0"
    by (simp_all add: blocked_def streaming0_def backoff0_def)
  have p: "pc streaming0 = Streaming" "pc backoff0 = Backoff"
    by (simp_all add: streaming0_def backoff0_def)
  have x: "exec streaming0 [StopCalled, StreamYields bookmark (Responded 200)] =
     Some (streaming0\<lparr>running := False, pc := Returned,
            trace := [Log INFO ''Stopping Pod Monitor Operator...'', HealthStop,
                      Log INFO ''Health server stopped'', Recv bookmark,
                      Log INFO ''Stopping Pod Monitor Operator...'', HealthStop,
                      Log INFO ''Health server stopped'']\<rparr>)"
    by (simp add: streaming0_def blocked_def stop_def emit_def on_event_def loop_top_def)
  from stop_ends_run [OF b(1), of bookmark "Responded 200" "ApiException ''gone''"] p
  have 1: "\<exists>s1. step streaming0 StopCalled = Some s1 \<and>
         quiet_return streaming0 (step s1 (StreamYields bookmark (Responded 200))) \<and>
         quiet_return streaming0 (step s1 StreamEnds) \<and>
         quiet_return streaming0 (step s1 (StreamRaises (ApiException ''gone'')))"
    by blast
  from stop_ends_run [OF b(2), of bookmark "Responded 200" "ApiException ''gone''"] p
  have 2: "\<exists>s1. step backoff0 StopCalled = Some s1 \<and> quiet_return backoff0 (step s1 SleepDone)"
    by blast
  from b p x 1 2 show ?thesis by blast
qed

subsection \<open>Configuration\<close>

text \<open>
  C8. Without \<open>SLACK_WEBHOOK_URL\<close> in the environment the constructor raises its
  \<open>ValueError\<close>; \<open>main\<close> then logs the fatal error and the process ends with status 1,
  with no health server started, no watch opened and nothing posted. Without
  \<open>NAMESPACE\<close> the operator is constructed for the namespace \<open>default\<close>, and that is
  the namespace \<open>main\<close> watches.
\<close>

theorem missing_webhook_fails_fast:
  "(env ''SLACK_WEBHOOK_URL'' = None \<longrightarrow>
      PodMonitorOperator_init env k ns = Inl (value_error, []) \<and>
      main env k ins =
        Some ([Log ERROR ''Fatal error: SLACK_WEBHOOK_URL environment variable is required''],
              Exited 1)) \<and>
   (env ''NAMESPACE'' = None \<longrightarrow>
      (\<forall>operator. PodMonitorOperator_init env k ''default'' = Inr operator \<longrightarrow>
         namespace operator = ''default'' \<and>
         main env k [] = Some (trace (run operator), StillRunning) \<and>
         watches (trace (run operator)) = [(''default'', 60)]))"
proof -
  have a: "env ''SLACK_WEBHOOK_URL'' = None \<longrightarrow>
      PodMonitorOperator_init env k ns = Inl (value_error, []) \<and>
      main env k ins =
        Some ([Log ERROR ''Fatal error: SLACK_WEBHOOK_URL environment variable is required''],
              Exited 1)"
    by (simp add: PodMonitorOperator_init_def main_def value_error_def)
  have b: "env ''NAMESPACE'' = None \<longrightarrow>
      (\<forall>operator. PodMonitorOperator_init env k ''default'' = Inr operator \<longrightarrow>
         namespace operator = ''default'' \<and>
         main env k [] = Some (trace (run operator), StillRunning) \<and>
         watches (trace (run operator)) = [(''default'', 60)])"
  proof (intro impI allI)
    fix operator
    assume ns: "env ''NAMESPACE'' = None"
      and init: "PodMonitorOperator_init env k ''default'' = Inr operator"
    from init have n: "namespace operator = ''default''" and w: "watches (trace operator) = []"
      by (auto simp: PodMonitorOperator_init_def init_kubernetes_client_def
            split: option.splits if_splits)
    have r: "pc (run operator) = Streaming"
      by (simp add: run_def loop_top_def emit_def)
    have m: "main env k [] = Some (trace (run operator), StillRunning)"
      using ns init r by (simp add: main_def)
    have "watches (trace (run operator)) = [(''default'', 60)]"
      using n w by (simp add: run_def loop_top_def emit_def watches_append)
    with n m show "namespace operator = ''default'' \<and>
         main env k [] = Some (trace (run operator), StillRunning) \<and>
         watches (trace (run operator)) = [(''default'', 60)]"
      by simp
  qed
  from a b show ?thesis by blast
qed


theorem missing_webhook_fails_fast_witness:
  "(Map.empty :: string \<rightharpoonup> string) ''SLACK_WEBHOOK_URL'' = None \<and>
   main Map.empty kube0 [StreamEnds] =
     Some ([Log ERROR ''Fatal error: SLACK_WEBHOOK_URL environment variable is required''],
           Exited 1) \<and>
   env0 ''NAMESPACE'' = None \<and>
   PodMonitorOperator_init env0 kube0 ''default'' = Inr operator0 \<and>
   namespace operator0 = ''default'' \<and>
   main env0 kube0 [] = Some (trace (run operator0), StillRunning) \<and>
   watches (trace (run operator0)) = [(''default'', 60)]"
proof -
  have a: "(Map.empty :: string \<rightharpoonup> string) ''SLACK_WEBHOOK_URL'' = None"
    by simp
  have n: "env0 ''NAMESPACE'' = None"
    by (simp add: env0_def)
  have i: "PodMonitorOperator_init env0 kube0 ''default'' = Inr operator0"
    by (simp add: PodMonitorOperator_init_def env0_def kube0_def init_kubernetes_client_def
          operator0_def hook_def)
  from missing_webhook_fails_fast [of Map.empty kube0 "''default''" "[StreamEnds]"] a
  have 1: "main Map.empty kube0 [StreamEnds] =
     Some ([Log ERROR ''Fatal error: SLACK_WEBHOOK_URL environment variable is required''],
           Exited 1)"
    by blast
  from missing_webhook_fails_fast [of env0 kube0 "''default''" "[]"] n i
  have 2: "namespace operator0 = ''default'' \<and>
     main env0 kube0 [] = Some (trace (run operator0), StillRunning) \<and>
     watches (trace (run operator0)) = [(''default'', 60)]"
    by blast
  from a n i 1 2 show ?thesis by blast
qed

subsection \<open>The running flag\<close>

text \<open>
  C7. In a process, the constructor creates the flag false and \<open>run\<close> sets it once at
  startup. From then on, along any inputs, the values of the flag at the points where
  \<open>run\<close> blocks or ends start with true, never go from false to true, and go from true to
  false at most once; when \<open>run\<close> has ended they have done so exactly once.
\<close>

theorem running_flag_monotonic:
  assumes "PodMonitorOperator_init env k ns = Inr s0"
  shows "\<not> running s0 \<and> hd (flags (run s0) ins) = True \<and>
         (False, True) \<notin> set (transitions (flags (run s0) ins)) \<and>
         count_list (transitions (flags (run s0) ins)) (True, False) \<le> 1 \<and>
         (\<forall>s'. exec (run s0) ins = Some s' \<and> ended s' \<longrightarrow>
            count_list (transitions (flags (run s0) ins)) (True, False) = 1)"
proof -
  have init: "\<not> running s0"
    using assms
    by (auto simp: PodMonitorOperator_init_def split: option.splits if_splits sum.splits)
  have r: "running (run s0)" and p: "\<not> ended (run s0)"
    by (simp_all add: run_def loop_top_def emit_def ended_def)
  from flags_shape [of "run s0" ins] r obtain n m where
    sh: "flags (run s0) ins = replicate (Suc n) True @ replicate m False"
    by (metis Suc_pred)
  have tr: "transitions (flags (run s0) ins) =
      replicate n (True, True) @
      (case m of 0 \<Rightarrow> [] | Suc m' \<Rightarrow> (True, False) # replicate m' (False, False))"
    by (simp only: sh transitions_shape)
  have 1: "hd (flags (run s0) ins) = True"
    by (simp add: sh)
  have 2: "(False, True) \<notin> set (transitions (flags (run s0) ins))"
    by (auto simp: tr split: nat.splits)
  have cnt: "count_list (transitions (flags (run s0) ins)) (True, False) = (if m = 0 then 0 else 1)"
    by (simp add: tr count_list_0_iff split: nat.splits)
  have 3: "\<forall>s'. exec (run s0) ins = Some s' \<and> ended s' \<longrightarrow>
            count_list (transitions (flags (run s0) ins)) (True, False) = 1"
  proof (intro allI impI, elim conjE)
    fix s'
    assume e: "exec (run s0) ins = Some s'" and d: "ended s'"
    from exec_ended_stopped [OF e d p] last_flags [OF e]
    have "last (flags (run s0) ins) = False"
      by simp
    moreover have "last (replicate (Suc n) True) = True"
      by (rule last_replicate) simp
    ultimately have "m \<noteq> 0"
      unfolding sh by (cases m) simp_all
    with cnt show "count_list (transitions (flags (run s0) ins)) (True, False) = 1"
      by simp
  qed
  from init 1 2 3 cnt show ?thesis by simp
qed

theorem running_flag_monotonic_witness:
  "PodMonitorOperator_init env0 kube0 ''default'' = Inr operator0 \<and>
   \<not> running operator0 \<and>
   flags (run operator0) [StreamEnds, StopCalled, StopCalled, StreamEnds] =
     [True, True, False, False, False] \<and>
   (\<exists>s'. exec (run operator0) [StreamEnds, StopCalled, StopCalled, StreamEnds] = Some s' \<and>
         ended s') \<and>
   (False, True) \<notin> set (transitions (flags (run operator0)
                            [StreamEnds, StopCalled, StopCalled, StreamEnds])) \<and>
   count_list (transitions (flags (run operator0) [StreamEnds, StopCalled, StopCalled, StreamEnds]))
     (True, False) = 1"
proof -
  let ?ins = "[StreamEnds, StopCalled, StopCalled, StreamEnds]"
  have i: "PodMonitorOperator_init env0 kube0 ''default'' = Inr operator0"
    by (simp add: PodMonitorOperator_init_def env0_def kube0_def init_kubernetes_client_def
          operator0_def hook_def)
  have f: "flags (run operator0) ?ins = [True, True, False, False, False]"
    by (simp add: run_def operator0_def loop_top_def emit_def stop_def blocked_def)
  have e: "\<exists>s'. exec (run operator0) ?ins = Some s' \<and> ended s'"
    by (simp add: run_def operator0_def loop_top_def emit_def stop_def blocked_def ended_def)
  from running_flag_monotonic [OF i, of ?ins] e f show ?thesis
    using i by auto
qed

subsection \<open>Order of notifications\<close>

text \<open>
  C2. Start with the flag set and let no input be a call of \<open>stop()\<close>. Then the messages
  posted along the inputs are those of the events received that pass the filter, each
  mapped to the message of its type and pod name (an event whose type has no template has
  none), in the order of receipt. In the actions, every event received is followed by its
  own post, if it has one, before the next event is received; and no input leads to more
  than one post.
\<close>

theorem notifications_in_order:
  assumes "running s" and "StopCalled \<notin> set ins" and "exec s ins = Some s'"
  shows "posts (trace s') =
           posts (trace s) @ List.map_filter message_of (filter passes (events_of ins)) \<and>
         filter is_io (trace s') =
           filter is_io (trace s) @ concat (map (io_of (webhook_url s)) ins) \<and>
         (\<forall>i \<in> set ins. length (posts (io_of (webhook_url s) i)) \<le> 1)"
proof -
  from exec_io [OF assms] have
    io: "filter is_io (trace s') =
           filter is_io (trace s) @ concat (map (io_of (webhook_url s)) ins)" .
  have "posts (trace s') = posts (filter is_io (trace s'))"
    by (simp only: posts_is_io)
  also have "\<dots> = posts (trace s) @ posts (concat (map (io_of (webhook_url s)) ins))"
    by (simp only: io posts_append posts_is_io)
  finally have "posts (trace s') =
      posts (trace s) @ List.map_filter message_of (filter passes (events_of ins))"
    by (simp only: posts_io_of)
  with io posts_io_of_le show ?thesis by blast
qed

theorem notifications_in_order_witness:
  "running streaming0 \<and> StopCalled \<notin> set script0 \<and>
   (\<exists>s'. exec streaming0 script0 = Some s' \<and>
      posts (trace s') = [''Hello world from web-1'', ''Goodbye world from, web-1''] \<and>
      filter is_io (trace s') =
        [Recv added, Post hook ''Hello world from web-1'' (Responded 200), Recv dns_changed,
         Recv bookmark, Recv removed, Post hook ''Goodbye world from, web-1'' (Responded 500)])"
proof -
  have r: "running streaming0" and t: "trace streaming0 = []"
    and u: "webhook_url streaming0 = hook"
    by (simp_all add: streaming0_def)
  have n: "StopCalled \<notin> set script0"
    by (simp add: script0_def)
  have "exec streaming0 script0 \<noteq> None"
    by (simp add: script0_def streaming0_def on_event_def on_exception_def loop_top_def emit_def
          should_ignore_pod_def or_empty_def keys_def handle_pod_event_def extract_pod_name_def
          to_dict_def dict_get_def added_def removed_def bookmark_def dns_changed_def web1_def
          coredns_def Let_def)
  then obtain s' where e: "exec streaming0 script0 = Some s'"
    by blast
  from notifications_in_order [OF r n e] t u passes_examples not_passes_bookmark message_of_examples
  have "posts (trace s') = [''Hello world from web-1'', ''Goodbye world from, web-1''] \<and>
      filter is_io (trace s') =
        [Recv added, Post hook ''Hello world from web-1'' (Responded 200), Recv dns_changed,
         Recv bookmark, Recv removed, Post hook ''Goodbye world from, web-1'' (Responded 500)]"
    by (simp add: script0_def)
  with r n e show ?thesis by blast
qed

subsection \<open>The health endpoint\<close>



end
